theory Spec2Isabelle
  imports Main
begin

section \<open>The duration check of \<^verbatim>\<open>src/server/api/trpc.ts\<close>\<close>

text \<open>
  The module validates the configured window with the regular expression
  \<^verbatim>\<open>/^(\d+)(ms|s|m|h|d)$/\<close>. The expression is kept as a syntax tree. It carries no flag,
  so \<^verbatim>\<open>^\<close> and \<^verbatim>\<open>$\<close> anchor the match at both ends of the input and \<^verbatim>\<open>test\<close>
  answers whether the whole string belongs to the expression. \<^verbatim>\<open>\d\<close> is one of the ten
  ASCII digits. The constructors \<open>Never\<close>, \<open>Blank\<close> and \<open>Star\<close> do not occur in the source's
  expression; the matcher produces them while it consumes the input.
\<close>

datatype regex =
    Never
  | Blank
  | Lit char
  | Digit
  | Seq regex regex
  | Alt regex regex
  | Star regex

definition Plus :: "regex \<Rightarrow> regex" where
  "Plus r = Seq r (Star r)"

definition is_digit :: "char \<Rightarrow> bool" where
  "is_digit c = (c \<in> set ''0123456789'')"

subsection \<open>What an expression matches\<close>

inductive_set rep :: "string set \<Rightarrow> string set" for A :: "string set" where
  rep_nil: "[] \<in> rep A"
| rep_more: "u \<in> A \<Longrightarrow> v \<in> rep A \<Longrightarrow> u @ v \<in> rep A"

fun lang :: "regex \<Rightarrow> string set" where
  "lang Never = {}"
| "lang Blank = {[]}"
| "lang (Lit c) = {[c]}"
| "lang Digit = {[c] | c. is_digit c}"
| "lang (Seq r s) = {u @ v | u v. u \<in> lang r \<and> v \<in> lang s}"
| "lang (Alt r s) = lang r \<union> lang s"
| "lang (Star r) = rep (lang r)"

subsection \<open>The matcher\<close>

fun accepts_empty :: "regex \<Rightarrow> bool" where
  "accepts_empty Never = False"
| "accepts_empty Blank = True"
| "accepts_empty (Lit c) = False"
| "accepts_empty Digit = False"
| "accepts_empty (Seq r s) = (accepts_empty r \<and> accepts_empty s)"
| "accepts_empty (Alt r s) = (accepts_empty r \<or> accepts_empty s)"
| "accepts_empty (Star r) = True"

fun after :: "char \<Rightarrow> regex \<Rightarrow> regex" where
  "after c Never = Never"
| "after c Blank = Never"
| "after c (Lit d) = (if c = d then Blank else Never)"
| "after c Digit = (if is_digit c then Blank else Never)"
| "after c (Seq r s) =
     (if accepts_empty r then Alt (Seq (after c r) s) (after c s) else Seq (after c r) s)"
| "after c (Alt r s) = Alt (after c r) (after c s)"
| "after c (Star r) = Seq (after c r) (Star r)"

fun test :: "regex \<Rightarrow> string \<Rightarrow> bool" where
  "test r [] = accepts_empty r"
| "test r (c # cs) = test (after c r) cs"

subsection \<open>\<^verbatim>\<open>validateDuration\<close> and the window constant\<close>

definition word :: "string \<Rightarrow> regex" where
  "word w = foldr (\<lambda>c r. Seq (Lit c) r) w Blank"

definition durationRegex :: regex where
  "durationRegex =
     Seq (Plus Digit)
       (Alt (word ''ms'') (Alt (word ''s'') (Alt (word ''m'') (Alt (word ''h'') (word ''d'')))))"

definition validateDuration :: "string \<Rightarrow> bool" where
  "validateDuration v = test durationRegex v"

record env =
  env_UPSTASH_RATELIMITER_TOKENS_PER_TIME :: string
  env_UPSTASH_RATELIMITER_TIME_INTERVAL :: string

definition UPSTASH_RATELIMITER_TIME_INTERVAL :: "env \<Rightarrow> string" where
  "UPSTASH_RATELIMITER_TIME_INTERVAL e =
     (if validateDuration (env_UPSTASH_RATELIMITER_TIME_INTERVAL e)
      then env_UPSTASH_RATELIMITER_TIME_INTERVAL e
      else ''1d'')"

text \<open>
  The form the specification gives for a window: an integer written with digits, followed
  by one of the five units.
\<close>

definition duration_units :: "string list" where
  "duration_units = [''ms'', ''s'', ''m'', ''h'', ''d'']"

definition is_duration_form :: "string \<Rightarrow> bool" where
  "is_duration_form s =
     (\<exists>ds u. s = ds @ u \<and> ds \<noteq> [] \<and> list_all is_digit ds \<and> u \<in> set duration_units)"

section \<open>The budget: \<^verbatim>\<open>parseInt(env.UPSTASH_RATELIMITER_TOKENS_PER_TIME)\<close>\<close>

text \<open>
  The limiter is built with \<^verbatim>\<open>parseInt\<close> of the configured string. \<^verbatim>\<open>parseInt\<close> with no
  radix skips leading white space, reads a sign, switches to radix 16 after \<^verbatim>\<open>0x\<close> or
  \<^verbatim>\<open>0X\<close>, and reads the longest run of digits of the radix; with no digit the result is
  \<^verbatim>\<open>NaN\<close>, here \<open>None\<close>. The number is kept as a mathematical integer (a JavaScript number
  holds it exactly up to \<open>2 ^ 53\<close>).
\<close>

definition is_space :: "char \<Rightarrow> bool" where
  "is_space c = (of_char c \<in> {9, 10, 11, 12, 13, 32, 160 :: nat})"

definition digit_value :: "nat \<Rightarrow> char \<Rightarrow> nat option" where
  "digit_value radix c =
     (let n = (of_char c :: nat);
          v = (if 48 \<le> n \<and> n \<le> 57 then Some (n - 48)
               else if 97 \<le> n \<and> n \<le> 122 then Some (n - 87)
               else if 65 \<le> n \<and> n \<le> 90 then Some (n - 55)
               else None)
      in case v of None \<Rightarrow> None | Some d \<Rightarrow> if d < radix then Some d else None)"

definition radix_value :: "nat \<Rightarrow> string \<Rightarrow> nat" where
  "radix_value radix z = foldl (\<lambda>a c. a * radix + the (digit_value radix c)) 0 z"

definition parseInt :: "string \<Rightarrow> int option" where
  "parseInt str =
     (let s = dropWhile is_space str;
          sign = (if take 1 s = ''-'' then - 1 else 1 :: int);
          s1 = (if take 1 s = ''+'' \<or> take 1 s = ''-'' then drop 1 s else s);
          hex = (take 2 s1 = ''0x'' \<or> take 2 s1 = ''0X'');
          radix = (if hex then 16 else 10 :: nat);
          s2 = (if hex then drop 2 s1 else s1);
          z = takeWhile (\<lambda>c. digit_value radix c \<noteq> None) s2
      in if z = [] then None else Some (sign * int (radix_value radix z)))"

section \<open>Request context\<close>

datatype header_value = Text string | Number int

record response =
  headers :: "string \<rightharpoonup> header_value"

record request =
  req_headers :: "string \<rightharpoonup> string"

record CreateNextContextOptions =
  opts_req :: request
  opts_res :: response

text \<open>
  \<^verbatim>\<open>ip\<close> is the value of the \<^verbatim>\<open>x-forwarded-for\<close> header, \<^verbatim>\<open>undefined\<close> (here \<open>None\<close>) when
  the request has none; the cast \<^verbatim>\<open>as string\<close> does nothing at run time. The inner context
  \<^verbatim>\<open>createInnerTRPCContext({})\<close> is the empty object and adds no field.
\<close>

record Context =
  ip :: "string option"
  res :: response

definition createTRPCContext :: "CreateNextContextOptions \<Rightarrow> Context" where
  "createTRPCContext opts =
     (let ip = req_headers (opts_req opts) ''x-forwarded-for'';
          res = opts_res opts
      in \<lparr>ip = ip, res = res\<rparr>)"

section \<open>Errors, log and state\<close>

text \<open>The error codes a \<^verbatim>\<open>TRPCError\<close> can carry.\<close>

datatype TRPC_ERROR_CODE_KEY =
    PARSE_ERROR
  | BAD_REQUEST
  | INTERNAL_SERVER_ERROR
  | NOT_IMPLEMENTED
  | UNAUTHORIZED
  | FORBIDDEN
  | NOT_FOUND
  | METHOD_NOT_SUPPORTED
  | TIMEOUT
  | CONFLICT
  | PRECONDITION_FAILED
  | PAYLOAD_TOO_LARGE
  | UNPROCESSABLE_CONTENT
  | TOO_MANY_REQUESTS
  | CLIENT_CLOSED_REQUEST

text \<open>
  A call ends with a value or with an exception: a \<^verbatim>\<open>TRPCError\<close> the code throws itself, or
  whatever \<^verbatim>\<open>ratelimit.limit\<close> threw (\<open>Thrown\<close>), which the middleware does not catch.
\<close>

datatype 'x failure = TRPCError TRPC_ERROR_CODE_KEY string | Thrown 'x

datatype log_entry = Warn string "(string \<times> string) list"

text \<open>
  What a call can change: the context with its response object, the log, and the counter
  store behind the limiter.
\<close>

record 's state =
  ctx :: Context
  logged :: "log_entry list"
  redis :: 's

record RatelimitResponse =
  success :: bool
  remaining :: int

text \<open>
  \<^verbatim>\<open>ratelimit.limit\<close> belongs to the package \<^verbatim>\<open>@upstash/ratelimit\<close>; the middleware takes it as
  a parameter: from the store and a key it yields a decision or throws, and leaves a store.
\<close>

type_synonym ('s, 'x) limiter = "'s \<Rightarrow> string \<Rightarrow> ('x + RatelimitResponse) \<times> 's"

type_synonym ('s, 'x, 'a) handler = "'s state \<Rightarrow> ('x failure + 'a) \<times> 's state"

definition setHeader :: "string \<Rightarrow> header_value \<Rightarrow> 's state \<Rightarrow> 's state" where
  "setHeader name v st =
     st\<lparr>ctx := (ctx st)\<lparr>res := (res (ctx st))\<lparr>headers := (headers (res (ctx st)))(name \<mapsto> v)\<rparr>\<rparr>\<rparr>"

definition getHeader :: "'s state \<Rightarrow> string \<Rightarrow> header_value option" where
  "getHeader st name = headers (res (ctx st)) name"

definition warn :: "string \<Rightarrow> (string \<times> string) list \<Rightarrow> 's state \<Rightarrow> 's state" where
  "warn message args st = st\<lparr>logged := logged st @ [Warn message args]\<rparr>"

section \<open>The rate-limit middleware\<close>

text \<open>A template literal writes \<^verbatim>\<open>undefined\<close> as the word itself.\<close>

definition toString :: "string option \<Rightarrow> string" where
  "toString v = (case v of None \<Rightarrow> ''undefined'' | Some s \<Rightarrow> s)"

definition "identifier" :: "Context \<Rightarrow> string \<Rightarrow> string" where
  "identifier c path = toString (ip c) @ '':'' @ path"

definition rateLimitMiddleware ::
  "env \<Rightarrow> ('s, 'x) limiter \<Rightarrow> string \<Rightarrow> ('s, 'x, 'a) handler \<Rightarrow> ('s, 'x, 'a) handler" where
  "rateLimitMiddleware e limit path next st =
     (case limit (redis st) (identifier (ctx st) path) of
        (Inl x, s') \<Rightarrow> (Inl (Thrown x), st\<lparr>redis := s'\<rparr>)
      | (Inr r, s') \<Rightarrow>
          (let st1 = st\<lparr>redis := s'\<rparr>;
               st2 = setHeader ''X-RateLimit-Limit''
                       (Text (env_UPSTASH_RATELIMITER_TOKENS_PER_TIME e)) st1;
               st3 = setHeader ''X-RateLimit-Remaining'' (Number (remaining r)) st2
           in if \<not> success r
              then (Inl (TRPCError INTERNAL_SERVER_ERROR ''Rate limit exceeded''),
                    warn ''Rate limit exceeded'' [(''ip'', identifier (ctx st) path)] st3)
              else next st3))"

section \<open>Procedures\<close>

text \<open>
  A procedure builder holds the middlewares given to \<^verbatim>\<open>use\<close>, in order. A call runs them
  from the first, each one deciding whether to go on to \<^verbatim>\<open>next\<close>; after the last comes the
  resolver of the procedure.
\<close>

type_synonym ('s, 'x, 'a) middleware = "string \<Rightarrow> ('s, 'x, 'a) handler \<Rightarrow> ('s, 'x, 'a) handler"

record ('s, 'x, 'a) procedure =
  middlewares :: "('s, 'x, 'a) middleware list"

definition t_procedure :: "('s, 'x, 'a) procedure" where
  "t_procedure = \<lparr>middlewares = []\<rparr>"

definition use :: "('s, 'x, 'a) procedure \<Rightarrow> ('s, 'x, 'a) middleware \<Rightarrow> ('s, 'x, 'a) procedure" where
  "use p m = p\<lparr>middlewares := middlewares p @ [m]\<rparr>"

definition publicProcedure :: "('s, 'x, 'a) procedure" where
  "publicProcedure = t_procedure"

definition rateLimitedProcedure :: "env \<Rightarrow> ('s, 'x) limiter \<Rightarrow> ('s, 'x, 'a) procedure" where
  "rateLimitedProcedure e limit = use t_procedure (rateLimitMiddleware e limit)"

fun callRecursive ::
  "('s, 'x, 'a) middleware list \<Rightarrow> string \<Rightarrow> ('s, 'x, 'a) handler \<Rightarrow> ('s, 'x, 'a) handler" where
  "callRecursive [] path resolver = resolver"
| "callRecursive (m # ms) path resolver = m path (callRecursive ms path resolver)"

definition call ::
  "('s, 'x, 'a) procedure \<Rightarrow> string \<Rightarrow> ('s, 'x, 'a) handler \<Rightarrow> ('s, 'x, 'a) handler" where
  "call p path resolver = callRecursive (middlewares p) path resolver"

text \<open>
  Modelled from the spec: how the framework (tRPC, not under src/) reports the outcome of a
  call to the caller. A \<^verbatim>\<open>TRPCError\<close> keeps its code; any other exception is surfaced as a
  server error; a call that returns carries no error code.
\<close>

definition surfaced_code :: "'x failure + 'a \<Rightarrow> TRPC_ERROR_CODE_KEY option" where
  "surfaced_code outcome =
     (case outcome of
        Inr v \<Rightarrow> None
      | Inl (TRPCError c m) \<Rightarrow> Some c
      | Inl (Thrown x) \<Rightarrow> Some INTERNAL_SERVER_ERROR)"

section \<open>Stand-ins for the collaborators\<close>

text \<open>
  In-memory stand-ins used to run the middleware on concrete calls: a limiter that allows,
  one that denies, one whose store call throws, one whose store gives no answer, and a
  resolver that leaves a mark in the log when it runs.
\<close>

definition allowing_limit :: "(string \<Rightarrow> nat, string) limiter" where
  "allowing_limit s key = (Inr \<lparr>success = True, remaining = 1\<rparr>, s)"

definition denying_limit :: "(string \<Rightarrow> nat, string) limiter" where
  "denying_limit s key = (Inr \<lparr>success = False, remaining = 0\<rparr>, s)"

definition failing_limit :: "(string \<Rightarrow> nat, string) limiter" where
  "failing_limit s key = (Inl ''ECONNRESET'', s)"

text \<open>
  A store that gives no answer. The module builds \<^verbatim>\<open>Ratelimit\<close> with no \<^verbatim>\<open>timeout\<close> option
  (lines 115 to 123), so the package's default applies: \<^verbatim>\<open>limit\<close> does not throw and does
  not wait for the store; when the timeout has passed it resolves with \<^verbatim>\<open>success\<close> true and
  \<^verbatim>\<open>remaining\<close> 0, and the store is left as it was.
\<close>

definition unreachable_limit :: "(string \<Rightarrow> nat, string) limiter" where
  "unreachable_limit s key = (Inr \<lparr>success = True, remaining = 0\<rparr>, s)"

definition marking_resolver :: "(string \<Rightarrow> nat, string, string) handler" where
  "marking_resolver st = (Inr ''Zurich'', warn ''resolver ran'' [] st)"

definition example_env :: env where
  "example_env =
     \<lparr>env_UPSTASH_RATELIMITER_TOKENS_PER_TIME = ''2'',
      env_UPSTASH_RATELIMITER_TIME_INTERVAL = ''10s''\<rparr>"

definition example_opts :: CreateNextContextOptions where
  "example_opts =
     \<lparr>opts_req = \<lparr>req_headers = [''x-forwarded-for'' \<mapsto> ''203.0.113.7'']\<rparr>,
      opts_res = \<lparr>headers = Map.empty\<rparr>\<rparr>"

definition example_state :: "(string \<Rightarrow> nat) state" where
  "example_state = \<lparr>ctx = createTRPCContext example_opts, logged = [], redis = (\<lambda>key. 0)\<rparr>"

section \<open>The limiter's arguments\<close>

text \<open>
  The arguments of \<^verbatim>\<open>Ratelimit.slidingWindow\<close> as the module computes them when it is
  loaded: the parsed budget and the window.
\<close>

record slidingWindow_args =
  tokens :: "int option"
  window :: string

definition ratelimit_args :: "env \<Rightarrow> slidingWindow_args" where
  "ratelimit_args e =
     \<lparr>tokens = parseInt (env_UPSTASH_RATELIMITER_TOKENS_PER_TIME e),
      window = UPSTASH_RATELIMITER_TIME_INTERVAL e\<rparr>"

text \<open>
  Modelled from the spec: the validation of the environment at process start (\<^verbatim>\<open>env.mjs\<close>,
  not under src/). The token budget has to be a positive integer: a string of decimal
  digits, not all of them zero. A process whose budget is not one does not start.
\<close>

definition valid_token_budget :: "string \<Rightarrow> bool" where
  "valid_token_budget s = (s \<noteq> [] \<and> list_all is_digit s \<and> list_ex (\<lambda>c. c \<noteq> CHR ''0'') s)"

datatype startup_failure = InvalidEnvironment

definition process_start :: "env \<Rightarrow> startup_failure + slidingWindow_args" where
  "process_start e =
     (if valid_token_budget (env_UPSTASH_RATELIMITER_TOKENS_PER_TIME e)
      then Inr (ratelimit_args e)
      else Inl InvalidEnvironment)"

text \<open>
  Modelled from the spec: the Quota Gate's decision, which the code leaves to
  \<^verbatim>\<open>ratelimit.limit\<close> of the package \<^verbatim>\<open>@upstash/ratelimit\<close> and its store (not under src/).
  Within one window the store holds a count for every key. A call increments the count of
  its key; when the count after the increment exceeds the budget \<open>N\<close> the decision is
  not allowed with remaining 0, otherwise it is allowed with remaining \<open>N - count\<close>.
\<close>

definition consult :: "int \<Rightarrow> (string \<Rightarrow> nat) \<Rightarrow> string \<Rightarrow> RatelimitResponse \<times> (string \<Rightarrow> nat)" where
  "consult N counts key =
     (let count = counts key + 1
      in (if int count > N
          then \<lparr>success = False, remaining = 0\<rparr>
          else \<lparr>success = True, remaining = N - int count\<rparr>,
          counts(key := count)))"

definition counting_limit :: "int \<Rightarrow> (string \<Rightarrow> nat, 'x) limiter" where
  "counting_limit N counts key = (case consult N counts key of (r, counts') \<Rightarrow> (Inr r, counts'))"

section \<open>Properties of the duration check\<close>

lemma accepts_empty_iff: "accepts_empty r \<longleftrightarrow> [] \<in> lang r"
  by (induction r) (auto intro: rep.rep_nil)

lemma rep_cons_iff:
  "c # w \<in> rep A \<longleftrightarrow> (\<exists>u v. w = u @ v \<and> c # u \<in> A \<and> v \<in> rep A)"
proof
  assume "c # w \<in> rep A"
  then show "\<exists>u v. w = u @ v \<and> c # u \<in> A \<and> v \<in> rep A"
  proof (induction "c # w" arbitrary: w rule: rep.induct)
    case (rep_more u v)
    show ?case
    proof (cases u)
      case Nil
      with rep_more show ?thesis by simp
    next
      case (Cons d u')
      with rep_more.hyps show ?thesis by auto
    qed
  qed
next
  assume "\<exists>u v. w = u @ v \<and> c # u \<in> A \<and> v \<in> rep A"
  then obtain u v where "w = u @ v" "c # u \<in> A" "v \<in> rep A" by blast
  then show "c # w \<in> rep A" using rep.rep_more [of "c # u" A v] by simp
qed

lemma lang_after: "w \<in> lang (after c r) \<longleftrightarrow> c # w \<in> lang r"
proof (induction r arbitrary: w)
  case (Seq r s)
  then show ?case
    by (auto simp: accepts_empty_iff Cons_eq_append_conv)
next
  case (Star r)
  then show ?case by (auto simp: rep_cons_iff)
qed auto

lemma test_iff: "test r s \<longleftrightarrow> s \<in> lang r"
  by (induction s arbitrary: r) (simp_all add: accepts_empty_iff lang_after)

lemma lang_word: "lang (word w) = {w}"
  unfolding word_def by (induction w) auto

lemma rep_digits: "ds \<in> rep {[c] | c. is_digit c} \<longleftrightarrow> list_all is_digit ds"
proof
  assume "ds \<in> rep {[c] | c. is_digit c}"
  then show "list_all is_digit ds" by (induction rule: rep.induct) auto
next
  assume "list_all is_digit ds"
  then show "ds \<in> rep {[c] | c. is_digit c}"
  proof (induction ds)
    case Nil
    show ?case by (rule rep.rep_nil)
  next
    case (Cons d ds)
    then have "[d] \<in> {[c] | c. is_digit c}" and "ds \<in> rep {[c] | c. is_digit c}" by auto
    then have "[d] @ ds \<in> rep {[c] | c. is_digit c}" by (rule rep.rep_more)
    then show ?case by simp
  qed
qed

lemma lang_Plus_Digit: "s \<in> lang (Plus Digit) \<longleftrightarrow> s \<noteq> [] \<and> list_all is_digit s"
proof (cases s)
  case Nil
  then show ?thesis by (simp add: Plus_def)
next
  case (Cons d ds)
  have "d # ds \<in> lang (Plus Digit) \<longleftrightarrow> is_digit d \<and> list_all is_digit ds"
  proof
    assume "d # ds \<in> lang (Plus Digit)"
    then show "is_digit d \<and> list_all is_digit ds"
      by (auto simp: Plus_def rep_digits)
  next
    assume ok: "is_digit d \<and> list_all is_digit ds"
    then have "[d] \<in> lang Digit" and "ds \<in> lang (Star Digit)"
      by (simp_all add: rep_digits)
    then have "[d] @ ds \<in> lang (Seq Digit (Star Digit))"
      unfolding lang.simps by blast
    then show "d # ds \<in> lang (Plus Digit)"
      by (simp add: Plus_def)
  qed
  with Cons show ?thesis by simp
qed

lemma lang_durationRegex: "s \<in> lang durationRegex \<longleftrightarrow> is_duration_form s"
proof -
  have "s \<in> lang durationRegex \<longleftrightarrow>
        (\<exists>ds u. s = ds @ u \<and> ds \<in> lang (Plus Digit) \<and> u \<in> set duration_units)"
    unfolding durationRegex_def duration_units_def by (auto simp: lang_word)
  then show ?thesis
    unfolding is_duration_form_def by (auto simp: lang_Plus_Digit)
qed

lemma validateDuration_iff: "validateDuration s \<longleftrightarrow> is_duration_form s"
  by (simp add: validateDuration_def test_iff lang_durationRegex)

text \<open>
  Claim C5. A configured window of the form integer-then-unit (unit one of ms, s, m, h, d)
  is used as it is; every other configured string is replaced by the default window
  \<open>''1d''\<close>, and the module still yields a window (nothing fails).
\<close>

theorem window_fallback:
  "(is_duration_form (env_UPSTASH_RATELIMITER_TIME_INTERVAL e) \<longrightarrow>
      UPSTASH_RATELIMITER_TIME_INTERVAL e = env_UPSTASH_RATELIMITER_TIME_INTERVAL e) \<and>
   (\<not> is_duration_form (env_UPSTASH_RATELIMITER_TIME_INTERVAL e) \<longrightarrow>
      UPSTASH_RATELIMITER_TIME_INTERVAL e = ''1d'')"
  by (simp add: UPSTASH_RATELIMITER_TIME_INTERVAL_def validateDuration_iff)

theorem window_fallback_witness:
  "\<not> is_duration_form ''5 days'' \<and>
   UPSTASH_RATELIMITER_TIME_INTERVAL
     \<lparr>env_UPSTASH_RATELIMITER_TOKENS_PER_TIME = ''10'',
      env_UPSTASH_RATELIMITER_TIME_INTERVAL = ''5 days''\<rparr> = ''1d'' \<and>
   \<not> is_duration_form ''5x'' \<and>
   UPSTASH_RATELIMITER_TIME_INTERVAL
     \<lparr>env_UPSTASH_RATELIMITER_TOKENS_PER_TIME = ''10'',
      env_UPSTASH_RATELIMITER_TIME_INTERVAL = ''5x''\<rparr> = ''1d'' \<and>
   is_duration_form ''10s'' \<and>
   UPSTASH_RATELIMITER_TIME_INTERVAL
     \<lparr>env_UPSTASH_RATELIMITER_TOKENS_PER_TIME = ''10'',
      env_UPSTASH_RATELIMITER_TIME_INTERVAL = ''10s''\<rparr> = ''10s''"
proof -
  have days: "\<not> is_duration_form ''5 days''"
    unfolding validateDuration_iff [symmetric] by code_simp
  have x: "\<not> is_duration_form ''5x''"
    unfolding validateDuration_iff [symmetric] by code_simp
  have s: "is_duration_form ''10s''"
    unfolding validateDuration_iff [symmetric] by code_simp
  show ?thesis
    using days x s
      window_fallback [of "\<lparr>env_UPSTASH_RATELIMITER_TOKENS_PER_TIME = ''10'',
        env_UPSTASH_RATELIMITER_TIME_INTERVAL = ''5 days''\<rparr>"]
      window_fallback [of "\<lparr>env_UPSTASH_RATELIMITER_TOKENS_PER_TIME = ''10'',
        env_UPSTASH_RATELIMITER_TIME_INTERVAL = ''5x''\<rparr>"]
      window_fallback [of "\<lparr>env_UPSTASH_RATELIMITER_TOKENS_PER_TIME = ''10'',
        env_UPSTASH_RATELIMITER_TIME_INTERVAL = ''10s''\<rparr>"]
    by simp
qed

section \<open>Properties of the middleware\<close>

lemma call_public: "call publicProcedure path resolver st = resolver st"
  by (simp add: call_def publicProcedure_def t_procedure_def)

lemma call_guarded:
  "call (rateLimitedProcedure e limit) path resolver st =
   rateLimitMiddleware e limit path resolver st"
  by (simp add: call_def rateLimitedProcedure_def use_def t_procedure_def)

text \<open>
  Claim C2, as amended. When the store call errors, so that \<^verbatim>\<open>ratelimit.limit\<close> throws, the
  guarded call ends with that exception, which reaches the caller as a server error; the
  outcome is the same for every resolver, so the resolver is not run; nothing is allowed,
  no header is set and nothing is logged.
\<close>

theorem store_failure_fails_closed:
  assumes "limit (redis st) (identifier (ctx st) path) = (Inl x, s')"
  shows "call (rateLimitedProcedure e limit) path resolver st = (Inl (Thrown x), st\<lparr>redis := s'\<rparr>) \<and>
         surfaced_code (fst (call (rateLimitedProcedure e limit) path resolver st))
           = Some INTERNAL_SERVER_ERROR"
  using assms by (simp add: call_guarded rateLimitMiddleware_def surfaced_code_def)

theorem store_failure_fails_closed_witness:
  "failing_limit (redis example_state) (identifier (ctx example_state) ''search.findCityById'')
     = (Inl ''ECONNRESET'', redis example_state) \<and>
   call (rateLimitedProcedure example_env failing_limit) ''search.findCityById''
     marking_resolver example_state = (Inl (Thrown ''ECONNRESET''), example_state) \<and>
   surfaced_code (fst (call (rateLimitedProcedure example_env failing_limit)
     ''search.findCityById'' marking_resolver example_state)) = Some INTERNAL_SERVER_ERROR"
proof -
  have h: "failing_limit (redis example_state)
             (identifier (ctx example_state) ''search.findCityById'')
           = (Inl ''ECONNRESET'', redis example_state)"
    by (simp add: failing_limit_def)
  show ?thesis
    using h store_failure_fails_closed
        [where limit = failing_limit and st = example_state
           and path = "''search.findCityById''" and e = example_env
           and resolver = marking_resolver, OF h]
    by (simp add: surfaced_code_def)
qed

text \<open>
  Claim C2 as stated fails for a store that is unreachable: the limiter does not throw, it
  answers allowed once its timeout has passed, and the guarded call runs the resolver and
  returns its value. The gate fails open there.
\<close>

theorem store_unreachable_counterexample:
  "unreachable_limit (redis example_state)
     (identifier (ctx example_state) ''search.findCityById'')
     = (Inr \<lparr>success = True, remaining = 0\<rparr>, redis example_state) \<and>
   fst (call (rateLimitedProcedure example_env unreachable_limit) ''search.findCityById''
          marking_resolver example_state) = Inr ''Zurich'' \<and>
   logged (snd (call (rateLimitedProcedure example_env unreachable_limit)
          ''search.findCityById'' marking_resolver example_state))
     = [Warn ''resolver ran'' []] \<and>
   surfaced_code (fst (call (rateLimitedProcedure example_env unreachable_limit)
          ''search.findCityById'' marking_resolver example_state)) = None"
  by (simp add: call_guarded rateLimitMiddleware_def unreachable_limit_def
      marking_resolver_def warn_def setHeader_def surfaced_code_def example_state_def)

lemma getHeader_setHeader:
  "getHeader (setHeader name v st) name' = (if name' = name then Some v else getHeader st name')"
  by (simp add: getHeader_def setHeader_def)

lemma getHeader_warn: "getHeader (warn message args st) name = getHeader st name"
  by (simp add: getHeader_def warn_def)

lemma logged_setHeader: "logged (setHeader name v st) = logged st"
  by (simp add: setHeader_def)

lemma middleware_decided:
  assumes "limit (redis st) (identifier (ctx st) path) = (Inr r, s')"
  shows "rateLimitMiddleware e limit path next st =
         (let st' = setHeader ''X-RateLimit-Remaining'' (Number (remaining r))
                      (setHeader ''X-RateLimit-Limit''
                         (Text (env_UPSTASH_RATELIMITER_TOKENS_PER_TIME e)) (st\<lparr>redis := s'\<rparr>))
          in if success r then next st'
             else (Inl (TRPCError INTERNAL_SERVER_ERROR ''Rate limit exceeded''),
                   warn ''Rate limit exceeded'' [(''ip'', identifier (ctx st) path)] st'))"
  using assms by (simp add: rateLimitMiddleware_def Let_def)

text \<open>
  Claim C3, as amended. When the decision is not allowed, the guarded call ends before the
  resolver runs (the outcome is the same for every resolver), a warning with the identity
  key is logged, and the rejection is a \<^verbatim>\<open>TRPCError\<close> with the code
  \<open>INTERNAL_SERVER_ERROR\<close> and the message \<^verbatim>\<open>Rate limit exceeded\<close>: a code that differs from
  the codes of validation and not-found errors, and is the one a failure of the store
  surfaces with.
\<close>

theorem quota_rejection:
  assumes "limit (redis st) (identifier (ctx st) path) = (Inr r, s')"
    and "\<not> success r"
  shows "call (rateLimitedProcedure e limit) path resolver st =
           (Inl (TRPCError INTERNAL_SERVER_ERROR ''Rate limit exceeded''),
            warn ''Rate limit exceeded'' [(''ip'', identifier (ctx st) path)]
              (setHeader ''X-RateLimit-Remaining'' (Number (remaining r))
                 (setHeader ''X-RateLimit-Limit''
                    (Text (env_UPSTASH_RATELIMITER_TOKENS_PER_TIME e)) (st\<lparr>redis := s'\<rparr>)))) \<and>
         logged (snd (call (rateLimitedProcedure e limit) path resolver st)) =
           logged st @ [Warn ''Rate limit exceeded'' [(''ip'', identifier (ctx st) path)]] \<and>
         surfaced_code (fst (call (rateLimitedProcedure e limit) path resolver st)) =
           Some INTERNAL_SERVER_ERROR \<and>
         INTERNAL_SERVER_ERROR \<noteq> BAD_REQUEST \<and> INTERNAL_SERVER_ERROR \<noteq> NOT_FOUND"
  using assms
  by (simp add: call_guarded middleware_decided Let_def surfaced_code_def warn_def logged_setHeader)

theorem quota_rejection_witness:
  "denying_limit (redis example_state)
     (identifier (ctx example_state) ''search.findCityById'')
     = (Inr \<lparr>success = False, remaining = 0\<rparr>, redis example_state) \<and>
   \<not> success \<lparr>success = False, remaining = 0\<rparr> \<and>
   fst (call (rateLimitedProcedure example_env denying_limit)
          ''search.findCityById'' marking_resolver example_state)
     = Inl (TRPCError INTERNAL_SERVER_ERROR ''Rate limit exceeded'') \<and>
   logged (snd (call (rateLimitedProcedure example_env denying_limit)
          ''search.findCityById'' marking_resolver example_state))
     = [Warn ''Rate limit exceeded'' [(''ip'', ''203.0.113.7:search.findCityById'')]]"
proof -
  have h: "denying_limit (redis example_state)
     (identifier (ctx example_state) ''search.findCityById'')
     = (Inr \<lparr>success = False, remaining = 0\<rparr>, redis example_state)"
    by (simp add: denying_limit_def)
  have d: "\<not> success \<lparr>success = False, remaining = 0\<rparr>" by simp
  have k: "identifier (ctx example_state) ''search.findCityById'' = ''203.0.113.7:search.findCityById''"
    by (simp add: identifier_def toString_def example_state_def createTRPCContext_def example_opts_def)
  have l: "logged example_state = []" by (simp add: example_state_def)
  note q = quota_rejection
        [where limit = denying_limit and st = example_state
           and path = "''search.findCityById''" and e = example_env
           and resolver = marking_resolver, OF h d]
  from q have a: "fst (call (rateLimitedProcedure example_env
          denying_limit)
          ''search.findCityById'' marking_resolver example_state)
     = Inl (TRPCError INTERNAL_SERVER_ERROR ''Rate limit exceeded'')"
    by simp
  from q have b: "logged (snd (call (rateLimitedProcedure example_env
          denying_limit)
          ''search.findCityById'' marking_resolver example_state))
     = [Warn ''Rate limit exceeded'' [(''ip'', ''203.0.113.7:search.findCityById'')]]"
    unfolding k by (simp add: warn_def logged_setHeader l)
  from h d a b show ?thesis by blast
qed

text \<open>
  Claim C3 as stated fails: the code of a quota rejection is the generic server-error code,
  the same code a call surfaces with when the store fails, and not the code for too many
  requests; only the message tells a quota rejection apart.
\<close>

theorem quota_code_counterexample:
  "surfaced_code (fst (call (rateLimitedProcedure example_env denying_limit)
       ''search.findCityById'' marking_resolver example_state))
     = Some INTERNAL_SERVER_ERROR \<and>
   surfaced_code (fst (call (rateLimitedProcedure example_env failing_limit)
       ''search.findCityById'' marking_resolver example_state))
     = Some INTERNAL_SERVER_ERROR \<and>
   INTERNAL_SERVER_ERROR \<noteq> TOO_MANY_REQUESTS"
  by (simp add: call_guarded rateLimitMiddleware_def denying_limit_def failing_limit_def
      surfaced_code_def)

text \<open>
  Claim C6, as amended. Whenever the limiter returns a decision, allow or deny, both
  headers are set: \<^verbatim>\<open>X-RateLimit-Limit\<close> to the configured budget and
  \<^verbatim>\<open>X-RateLimit-Remaining\<close> to the remaining budget. On allow the resolver runs on the
  state that holds them; on deny the state the rejected call leaves holds them.
\<close>

theorem quota_headers_set:
  assumes "limit (redis st) (identifier (ctx st) path) = (Inr r, s')"
  shows "(let st' = setHeader ''X-RateLimit-Remaining'' (Number (remaining r))
                      (setHeader ''X-RateLimit-Limit''
                         (Text (env_UPSTASH_RATELIMITER_TOKENS_PER_TIME e)) (st\<lparr>redis := s'\<rparr>))
          in getHeader st' ''X-RateLimit-Limit''
               = Some (Text (env_UPSTASH_RATELIMITER_TOKENS_PER_TIME e)) \<and>
             getHeader st' ''X-RateLimit-Remaining'' = Some (Number (remaining r)) \<and>
             (if success r
              then call (rateLimitedProcedure e limit) path resolver st = resolver st'
              else fst (call (rateLimitedProcedure e limit) path resolver st)
                     = Inl (TRPCError INTERNAL_SERVER_ERROR ''Rate limit exceeded'') \<and>
                   getHeader (snd (call (rateLimitedProcedure e limit) path resolver st))
                     ''X-RateLimit-Limit''
                     = Some (Text (env_UPSTASH_RATELIMITER_TOKENS_PER_TIME e)) \<and>
                   getHeader (snd (call (rateLimitedProcedure e limit) path resolver st))
                     ''X-RateLimit-Remaining'' = Some (Number (remaining r))))"
  using assms
  by (simp add: call_guarded middleware_decided Let_def getHeader_setHeader getHeader_warn)

theorem quota_headers_set_witness:
  "denying_limit (redis example_state) (identifier (ctx example_state) ''search.findCityById'')
     = (Inr \<lparr>success = False, remaining = 0\<rparr>, redis example_state) \<and>
   getHeader (snd (call (rateLimitedProcedure example_env denying_limit)
       ''search.findCityById'' marking_resolver example_state)) ''X-RateLimit-Limit''
     = Some (Text ''2'') \<and>
   getHeader (snd (call (rateLimitedProcedure example_env denying_limit)
       ''search.findCityById'' marking_resolver example_state)) ''X-RateLimit-Remaining''
     = Some (Number 0) \<and>
   allowing_limit (redis example_state) (identifier (ctx example_state) ''search.findCityById'')
     = (Inr \<lparr>success = True, remaining = 1\<rparr>, redis example_state) \<and>
   getHeader (snd (call (rateLimitedProcedure example_env allowing_limit)
       ''search.findCityById'' marking_resolver example_state)) ''X-RateLimit-Limit''
     = Some (Text ''2'') \<and>
   getHeader (snd (call (rateLimitedProcedure example_env allowing_limit)
       ''search.findCityById'' marking_resolver example_state)) ''X-RateLimit-Remaining''
     = Some (Number 1)"
proof -
  have hd: "denying_limit (redis example_state)
              (identifier (ctx example_state) ''search.findCityById'')
            = (Inr \<lparr>success = False, remaining = 0\<rparr>, redis example_state)"
    by (simp add: denying_limit_def)
  have ha: "allowing_limit (redis example_state)
              (identifier (ctx example_state) ''search.findCityById'')
            = (Inr \<lparr>success = True, remaining = 1\<rparr>, redis example_state)"
    by (simp add: allowing_limit_def)
  have t: "env_UPSTASH_RATELIMITER_TOKENS_PER_TIME example_env = ''2''"
    by (simp add: example_env_def)
  note d = quota_headers_set
        [where limit = denying_limit and st = example_state
           and path = "''search.findCityById''" and e = example_env
           and resolver = marking_resolver, OF hd]
  note a = quota_headers_set
        [where limit = allowing_limit and st = example_state
           and path = "''search.findCityById''" and e = example_env
           and resolver = marking_resolver, OF ha]
  from d have d1: "getHeader (snd (call (rateLimitedProcedure example_env denying_limit)
       ''search.findCityById'' marking_resolver example_state)) ''X-RateLimit-Limit''
     = Some (Text ''2'')"
    and d2: "getHeader (snd (call (rateLimitedProcedure example_env denying_limit)
       ''search.findCityById'' marking_resolver example_state)) ''X-RateLimit-Remaining''
     = Some (Number 0)"
    by (simp_all add: Let_def t)
  from a have a1: "getHeader (snd (call (rateLimitedProcedure example_env allowing_limit)
       ''search.findCityById'' marking_resolver example_state)) ''X-RateLimit-Limit''
     = Some (Text ''2'')"
    and a2: "getHeader (snd (call (rateLimitedProcedure example_env allowing_limit)
       ''search.findCityById'' marking_resolver example_state)) ''X-RateLimit-Remaining''
     = Some (Number 1)"
    by (simp_all add: Let_def t marking_resolver_def getHeader_warn getHeader_setHeader)
  from hd d1 d2 ha a1 a2 show ?thesis by blast
qed

text \<open>
  Claim C6 as stated fails for a guarded call whose store call throws: the exception leaves
  the middleware before either header is set.
\<close>

theorem quota_headers_counterexample:
  "fst (call (rateLimitedProcedure example_env failing_limit) ''search.findCityById''
          marking_resolver example_state) = Inl (Thrown ''ECONNRESET'') \<and>
   getHeader (snd (call (rateLimitedProcedure example_env failing_limit) ''search.findCityById''
          marking_resolver example_state)) ''X-RateLimit-Limit'' = None \<and>
   getHeader (snd (call (rateLimitedProcedure example_env failing_limit) ''search.findCityById''
          marking_resolver example_state)) ''X-RateLimit-Remaining'' = None"
  by (simp add: call_guarded rateLimitMiddleware_def failing_limit_def getHeader_def
      example_state_def createTRPCContext_def example_opts_def)

text \<open>
  Claim C7. The guarded procedure is the unguarded one with the rate-limit middleware
  added and nothing else. An unguarded call is the resolver alone; a guarded call that the
  gate allows is the unguarded call, run on the state the gate leaves: the store updated
  and the two headers set, the caller's address and the log as they were.
\<close>

theorem guarded_is_unguarded_behind_gate:
  "rateLimitedProcedure e limit = use publicProcedure (rateLimitMiddleware e limit) \<and>
   middlewares (publicProcedure :: ('s, 'x, 'a) procedure) = [] \<and>
   middlewares (rateLimitedProcedure e limit) = [rateLimitMiddleware e limit] \<and>
   call publicProcedure path resolver st = resolver st \<and>
   (limit (redis st) (identifier (ctx st) path) = (Inr r, s') \<and> success r \<longrightarrow>
      call (rateLimitedProcedure e limit) path resolver st =
      call publicProcedure path resolver
        (setHeader ''X-RateLimit-Remaining'' (Number (remaining r))
           (setHeader ''X-RateLimit-Limit''
              (Text (env_UPSTASH_RATELIMITER_TOKENS_PER_TIME e)) (st\<lparr>redis := s'\<rparr>))) \<and>
      ip (ctx (setHeader ''X-RateLimit-Remaining'' (Number (remaining r))
           (setHeader ''X-RateLimit-Limit''
              (Text (env_UPSTASH_RATELIMITER_TOKENS_PER_TIME e)) (st\<lparr>redis := s'\<rparr>)))) = ip (ctx st) \<and>
      logged (setHeader ''X-RateLimit-Remaining'' (Number (remaining r))
           (setHeader ''X-RateLimit-Limit''
              (Text (env_UPSTASH_RATELIMITER_TOKENS_PER_TIME e)) (st\<lparr>redis := s'\<rparr>))) = logged st)"
  by (simp add: call_guarded call_public middleware_decided Let_def logged_setHeader)
     (simp add: rateLimitedProcedure_def publicProcedure_def use_def t_procedure_def setHeader_def)

theorem guarded_is_unguarded_behind_gate_witness:
  "allowing_limit (redis example_state) (identifier (ctx example_state) ''search.findCityById'')
     = (Inr \<lparr>success = True, remaining = 1\<rparr>, redis example_state) \<and>
   success \<lparr>success = True, remaining = 1\<rparr> \<and>
   call (rateLimitedProcedure example_env allowing_limit) ''search.findCityById''
     marking_resolver example_state =
   call publicProcedure ''search.findCityById'' marking_resolver
     (setHeader ''X-RateLimit-Remaining'' (Number 1)
        (setHeader ''X-RateLimit-Limit'' (Text ''2'') example_state)) \<and>
   fst (call (rateLimitedProcedure example_env allowing_limit) ''search.findCityById''
     marking_resolver example_state) = Inr ''Zurich''"
proof -
  have h: "allowing_limit (redis example_state)
             (identifier (ctx example_state) ''search.findCityById'')
           = (Inr \<lparr>success = True, remaining = 1\<rparr>, redis example_state)"
    by (simp add: allowing_limit_def)
  have t: "env_UPSTASH_RATELIMITER_TOKENS_PER_TIME example_env = ''2''"
    by (simp add: example_env_def)
  note g = guarded_is_unguarded_behind_gate
        [where limit = allowing_limit and st = example_state
           and path = "''search.findCityById''" and e = example_env
           and resolver = marking_resolver and s' = "redis example_state"
           and r = "\<lparr>success = True, remaining = 1\<rparr>"]
  from g have imp:
    "allowing_limit (redis example_state) (identifier (ctx example_state) ''search.findCityById'')
       = (Inr \<lparr>success = True, remaining = 1\<rparr>, redis example_state) \<and>
     success \<lparr>success = True, remaining = 1\<rparr> \<longrightarrow>
     call (rateLimitedProcedure example_env allowing_limit)
       ''search.findCityById'' marking_resolver example_state =
     call publicProcedure ''search.findCityById'' marking_resolver
       (setHeader ''X-RateLimit-Remaining'' (Number (remaining \<lparr>success = True, remaining = 1\<rparr>))
          (setHeader ''X-RateLimit-Limit''
             (Text (env_UPSTASH_RATELIMITER_TOKENS_PER_TIME example_env))
             (example_state\<lparr>redis := redis example_state\<rparr>)))"
    by blast
  from imp h have c: "call (rateLimitedProcedure example_env allowing_limit)
       ''search.findCityById'' marking_resolver example_state =
     call publicProcedure ''search.findCityById'' marking_resolver
       (setHeader ''X-RateLimit-Remaining'' (Number 1)
          (setHeader ''X-RateLimit-Limit'' (Text ''2'') example_state))"
    by (simp add: t)
  from g have "call publicProcedure ''search.findCityById'' marking_resolver example_state
     = marking_resolver example_state"
    by blast
  have p: "call publicProcedure ''search.findCityById'' marking_resolver
       (setHeader ''X-RateLimit-Remaining'' (Number 1)
          (setHeader ''X-RateLimit-Limit'' (Text ''2'') example_state))
     = marking_resolver (setHeader ''X-RateLimit-Remaining'' (Number 1)
          (setHeader ''X-RateLimit-Limit'' (Text ''2'') example_state))"
    by (simp add: call_public)
  have v: "fst (call (rateLimitedProcedure example_env allowing_limit) ''search.findCityById''
     marking_resolver example_state) = Inr ''Zurich''"
    unfolding c p by (simp add: marking_resolver_def)
  from h c v show ?thesis by simp
qed

text \<open>
  Claim C9. The identity key is a function of the forwarded address and the path alone:
  contexts with the same address, and requests with the same \<^verbatim>\<open>x-forwarded-for\<close> header,
  give the same key for the same path, whatever else they hold.
\<close>

theorem identifier_of_address_and_path:
  "(ip c1 = ip c2 \<and> p1 = p2 \<longrightarrow> identifier c1 p1 = identifier c2 p2) \<and>
   (req_headers (opts_req o1) ''x-forwarded-for'' = req_headers (opts_req o2) ''x-forwarded-for''
      \<and> p1 = p2 \<longrightarrow>
    identifier (createTRPCContext o1) p1 = identifier (createTRPCContext o2) p2)"
  by (simp add: identifier_def createTRPCContext_def)

theorem identifier_of_address_and_path_witness:
  "req_headers (opts_req example_opts) ''x-forwarded-for'' =
   req_headers (opts_req
     \<lparr>opts_req = \<lparr>req_headers = [''x-forwarded-for'' \<mapsto> ''203.0.113.7'', ''accept'' \<mapsto> ''*/*'']\<rparr>,
      opts_res = \<lparr>headers = [''Vary'' \<mapsto> Text ''Accept'']\<rparr>\<rparr>) ''x-forwarded-for'' \<and>
   identifier (createTRPCContext example_opts) ''search.findCityById'' =
   identifier (createTRPCContext
     \<lparr>opts_req = \<lparr>req_headers = [''x-forwarded-for'' \<mapsto> ''203.0.113.7'', ''accept'' \<mapsto> ''*/*'']\<rparr>,
      opts_res = \<lparr>headers = [''Vary'' \<mapsto> Text ''Accept'']\<rparr>\<rparr>) ''search.findCityById''"
proof -
  have h: "req_headers (opts_req example_opts) ''x-forwarded-for'' =
     req_headers (opts_req
       \<lparr>opts_req = \<lparr>req_headers = [''x-forwarded-for'' \<mapsto> ''203.0.113.7'', ''accept'' \<mapsto> ''*/*'']\<rparr>,
        opts_res = \<lparr>headers = [''Vary'' \<mapsto> Text ''Accept'']\<rparr>\<rparr>) ''x-forwarded-for''"
    by (simp add: example_opts_def)
  show ?thesis
    using h identifier_of_address_and_path
      [where ?o1.0 = example_opts
         and ?o2.0 = "\<lparr>opts_req = \<lparr>req_headers = [''x-forwarded-for'' \<mapsto> ''203.0.113.7'', ''accept'' \<mapsto> ''*/*'']\<rparr>,
              opts_res = \<lparr>headers = [''Vary'' \<mapsto> Text ''Accept'']\<rparr>\<rparr>"
         and ?p1.0 = "''search.findCityById''" and ?p2.0 = "''search.findCityById''"]
    by blast
qed

text \<open>
  Claim C10. A request with no \<^verbatim>\<open>x-forwarded-for\<close> header gets the key \<^verbatim>\<open>undefined:\<close>
  followed by the path, so any two such requests to one operation present the same key to
  the limiter and are counted together.
\<close>

theorem headerless_identifier:
  "(req_headers (opts_req opts) ''x-forwarded-for'' = None \<longrightarrow>
      identifier (createTRPCContext opts) path = ''undefined:'' @ path) \<and>
   (req_headers (opts_req o1) ''x-forwarded-for'' = None \<and>
    req_headers (opts_req o2) ''x-forwarded-for'' = None \<longrightarrow>
      identifier (createTRPCContext o1) path = identifier (createTRPCContext o2) path \<and>
      limit s (identifier (createTRPCContext o1) path)
        = limit s (identifier (createTRPCContext o2) path))"
  by (simp add: identifier_def createTRPCContext_def toString_def)

theorem headerless_identifier_witness:
  "req_headers (opts_req \<lparr>opts_req = \<lparr>req_headers = Map.empty\<rparr>,
      opts_res = \<lparr>headers = Map.empty\<rparr>\<rparr>) ''x-forwarded-for'' = None \<and>
   req_headers (opts_req \<lparr>opts_req = \<lparr>req_headers = [''accept'' \<mapsto> ''*/*'']\<rparr>,
      opts_res = \<lparr>headers = Map.empty\<rparr>\<rparr>) ''x-forwarded-for'' = None \<and>
   identifier (createTRPCContext \<lparr>opts_req = \<lparr>req_headers = Map.empty\<rparr>,
      opts_res = \<lparr>headers = Map.empty\<rparr>\<rparr>) ''search.findCityById''
     = ''undefined:search.findCityById'' \<and>
   identifier (createTRPCContext \<lparr>opts_req = \<lparr>req_headers = [''accept'' \<mapsto> ''*/*'']\<rparr>,
      opts_res = \<lparr>headers = Map.empty\<rparr>\<rparr>) ''search.findCityById''
     = ''undefined:search.findCityById''"
proof -
  have h1: "req_headers (opts_req \<lparr>opts_req = \<lparr>req_headers = Map.empty\<rparr>,
      opts_res = \<lparr>headers = Map.empty\<rparr>\<rparr>) ''x-forwarded-for'' = None"
    by simp
  have h2: "req_headers (opts_req \<lparr>opts_req = \<lparr>req_headers = [''accept'' \<mapsto> ''*/*'']\<rparr>,
      opts_res = \<lparr>headers = Map.empty\<rparr>\<rparr>) ''x-forwarded-for'' = None"
    by simp
  have k1: "identifier (createTRPCContext \<lparr>opts_req = \<lparr>req_headers = Map.empty\<rparr>,
      opts_res = \<lparr>headers = Map.empty\<rparr>\<rparr>) ''search.findCityById''
     = ''undefined:'' @ ''search.findCityById''"
    using h1 headerless_identifier
      [where opts = "\<lparr>opts_req = \<lparr>req_headers = Map.empty\<rparr>, opts_res = \<lparr>headers = Map.empty\<rparr>\<rparr>"
         and path = "''search.findCityById''" and limit = allowing_limit
         and s = "\<lambda>key. 0" and ?o1.0 = example_opts and ?o2.0 = example_opts]
    by simp
  have k2: "identifier (createTRPCContext \<lparr>opts_req = \<lparr>req_headers = [''accept'' \<mapsto> ''*/*'']\<rparr>,
      opts_res = \<lparr>headers = Map.empty\<rparr>\<rparr>) ''search.findCityById''
     = ''undefined:'' @ ''search.findCityById''"
    using h2 headerless_identifier
      [where opts = "\<lparr>opts_req = \<lparr>req_headers = [''accept'' \<mapsto> ''*/*'']\<rparr>,
           opts_res = \<lparr>headers = Map.empty\<rparr>\<rparr>"
         and path = "''search.findCityById''" and limit = allowing_limit
         and s = "\<lambda>key. 0" and ?o1.0 = example_opts and ?o2.0 = example_opts]
    by simp
  from h1 h2 k1 k2 show ?thesis by simp
qed

lemma identifier_inj_path:
  "ip c1 = ip c2 \<Longrightarrow> identifier c1 p = identifier c2 q \<longleftrightarrow> p = q"
  by (simp add: identifier_def)

lemma consult_other_key:
  "key' \<noteq> key \<Longrightarrow> snd (consult N counts key) key' = counts key'"
  by (simp add: consult_def Let_def)

lemma consult_decision_depends_on_own_count:
  "counts key = counts' key \<Longrightarrow> fst (consult N counts key) = fst (consult N counts' key)"
  by (simp add: consult_def Let_def)

lemma calls_to_other_key:
  "key' \<noteq> key \<Longrightarrow> (((\<lambda>counts. snd (consult N counts key)) ^^ n) counts) key' = counts key'"
  by (induction n) (simp_all add: consult_other_key)

text \<open>
  Claim C4. For one forwarded address, the same path gives the same key and different
  paths give different keys; hence, in the counter of the specification, any number of
  calls to another operation leave the decision for this one as it was.
\<close>

theorem per_operation_identity:
  "(ip c1 = ip c2 \<longrightarrow> identifier c1 p = identifier c2 p) \<and>
   (ip c1 = ip c2 \<and> p \<noteq> q \<longrightarrow> identifier c1 p \<noteq> identifier c2 q) \<and>
   (ip c1 = ip c2 \<and> p \<noteq> q \<longrightarrow>
      fst (consult N (((\<lambda>counts. snd (consult N counts (identifier c1 p))) ^^ n) counts)
             (identifier c2 q))
        = fst (consult N counts (identifier c2 q)))"
proof (intro conjI impI)
  assume "ip c1 = ip c2"
  then show "identifier c1 p = identifier c2 p" by (simp add: identifier_inj_path)
next
  assume "ip c1 = ip c2 \<and> p \<noteq> q"
  then show "identifier c1 p \<noteq> identifier c2 q" by (simp add: identifier_inj_path)
next
  assume a: "ip c1 = ip c2 \<and> p \<noteq> q"
  then have "identifier c2 q \<noteq> identifier c1 p"
    using identifier_inj_path [of c1 c2 p q] by auto
  then have "(((\<lambda>counts. snd (consult N counts (identifier c1 p))) ^^ n) counts) (identifier c2 q)
             = counts (identifier c2 q)"
    by (rule calls_to_other_key)
  then show "fst (consult N (((\<lambda>counts. snd (consult N counts (identifier c1 p))) ^^ n) counts)
             (identifier c2 q))
        = fst (consult N counts (identifier c2 q))"
    by (rule consult_decision_depends_on_own_count)
qed

theorem per_operation_identity_witness:
  "ip (ctx example_state) = ip (ctx example_state) \<and>
   ''search.findCityById'' \<noteq> ''email.sendContactEmail'' \<and>
   identifier (ctx example_state) ''search.findCityById''
     \<noteq> identifier (ctx example_state) ''email.sendContactEmail'' \<and>
   fst (consult 2
          (((\<lambda>counts. snd (consult 2 counts (identifier (ctx example_state) ''search.findCityById'')))
              ^^ 5) (\<lambda>key. 0))
          (identifier (ctx example_state) ''email.sendContactEmail''))
     = \<lparr>success = True, remaining = 1\<rparr>"
proof -
  have h: "ip (ctx example_state) = ip (ctx example_state) \<and>
           ''search.findCityById'' \<noteq> ''email.sendContactEmail''"
    by simp
  note t = per_operation_identity
      [where ?c1.0 = "ctx example_state" and ?c2.0 = "ctx example_state"
         and p = "''search.findCityById''" and q = "''email.sendContactEmail''"
         and N = 2 and n = 5 and counts = "\<lambda>key. 0"]
  from t h have a: "identifier (ctx example_state) ''search.findCityById''
     \<noteq> identifier (ctx example_state) ''email.sendContactEmail''"
    by blast
  from t h have "fst (consult 2
          (((\<lambda>counts. snd (consult 2 counts (identifier (ctx example_state) ''search.findCityById'')))
              ^^ 5) (\<lambda>key. 0))
          (identifier (ctx example_state) ''email.sendContactEmail''))
     = fst (consult 2 (\<lambda>key. 0) (identifier (ctx example_state) ''email.sendContactEmail''))"
    by blast
  also have "\<dots> = \<lparr>success = True, remaining = 1\<rparr>"
    by (simp add: consult_def)
  finally show ?thesis using h a by blast
qed

lemma counting_limit_eq:
  "counting_limit N counts key = (Inr (fst (consult N counts key)), snd (consult N counts key))"
  by (simp add: counting_limit_def split: prod.splits)

text \<open>
  Claim C1. With the counter of the specification and budget \<open>N\<close>: a guarded call increments
  the count of its key; when the count after the increment is at most \<open>N\<close> the decision is
  allowed with remaining \<open>N - count\<close> and the resolver runs; when it exceeds \<open>N\<close> the decision
  is not allowed with remaining 0 and the call is rejected.
\<close>

theorem quota_decision:
  "(let key = identifier (ctx st) path;
        count = int (redis st key) + 1;
        st' = st\<lparr>redis := (redis st)(key := redis st key + 1)\<rparr>
    in (count \<le> N \<longrightarrow>
          fst (consult N (redis st) key) = \<lparr>success = True, remaining = N - count\<rparr> \<and>
          call (rateLimitedProcedure e (counting_limit N)) path resolver st =
            resolver (setHeader ''X-RateLimit-Remaining'' (Number (N - count))
                        (setHeader ''X-RateLimit-Limit''
                           (Text (env_UPSTASH_RATELIMITER_TOKENS_PER_TIME e)) st'))) \<and>
       (N < count \<longrightarrow>
          fst (consult N (redis st) key) = \<lparr>success = False, remaining = 0\<rparr> \<and>
          call (rateLimitedProcedure e (counting_limit N)) path resolver st =
            (Inl (TRPCError INTERNAL_SERVER_ERROR ''Rate limit exceeded''),
             warn ''Rate limit exceeded'' [(''ip'', key)]
               (setHeader ''X-RateLimit-Remaining'' (Number 0)
                  (setHeader ''X-RateLimit-Limit''
                     (Text (env_UPSTASH_RATELIMITER_TOKENS_PER_TIME e)) st')))))"
proof -
  let ?key = "identifier (ctx st) path"
  have d: "consult N (redis st) ?key =
           (if int (redis st ?key) + 1 > N
            then \<lparr>success = False, remaining = 0\<rparr>
            else \<lparr>success = True, remaining = N - (int (redis st ?key) + 1)\<rparr>,
            (redis st)(?key := redis st ?key + 1))"
    by (simp add: consult_def Let_def)
  have l: "counting_limit N (redis st) ?key =
           (Inr (fst (consult N (redis st) ?key)), (redis st)(?key := redis st ?key + 1))"
    by (simp add: counting_limit_eq d)
  show ?thesis
    unfolding Let_def call_guarded
      middleware_decided [where limit = "counting_limit N" and st = st and path = path, OF l]
    by (simp add: d)
qed

theorem quota_decision_witness:
  "int (redis example_state (identifier (ctx example_state) ''search.findCityById'')) + 1 \<le> 2 \<and>
   fst (consult 2 (redis example_state) (identifier (ctx example_state) ''search.findCityById''))
     = \<lparr>success = True, remaining = 1\<rparr> \<and>
   fst (call (rateLimitedProcedure example_env (counting_limit 2)) ''search.findCityById''
          marking_resolver example_state) = Inr ''Zurich'' \<and>
   2 < int (redis (example_state\<lparr>redis := \<lambda>key. 2\<rparr>)
              (identifier (ctx (example_state\<lparr>redis := \<lambda>key. 2\<rparr>)) ''search.findCityById'')) + 1 \<and>
   fst (consult 2 (redis (example_state\<lparr>redis := \<lambda>key. 2\<rparr>))
          (identifier (ctx (example_state\<lparr>redis := \<lambda>key. 2\<rparr>)) ''search.findCityById''))
     = \<lparr>success = False, remaining = 0\<rparr> \<and>
   fst (call (rateLimitedProcedure example_env (counting_limit 2)) ''search.findCityById''
          marking_resolver (example_state\<lparr>redis := \<lambda>key. 2\<rparr>))
     = Inl (TRPCError INTERNAL_SERVER_ERROR ''Rate limit exceeded'')"
proof -
  let ?p = "''search.findCityById''"
  let ?full = "example_state\<lparr>redis := \<lambda>key. 2\<rparr>"
  have h1: "int (redis example_state (identifier (ctx example_state) ?p)) + 1 \<le> 2"
    by (simp add: example_state_def)
  have h2: "2 < int (redis ?full (identifier (ctx ?full) ?p)) + 1"
    by simp
  note a = quota_decision
      [where st = example_state and path = ?p and N = 2 and e = example_env
         and resolver = marking_resolver, unfolded Let_def]
  note b = quota_decision
      [where st = ?full and path = ?p and N = 2 and e = example_env
         and resolver = marking_resolver, unfolded Let_def]
  from a h1 have a1: "fst (consult 2 (redis example_state) (identifier (ctx example_state) ?p))
       = \<lparr>success = True, remaining = 2 - (int (redis example_state
             (identifier (ctx example_state) ?p)) + 1)\<rparr>"
    by blast
  then have a1': "fst (consult 2 (redis example_state) (identifier (ctx example_state) ?p))
       = \<lparr>success = True, remaining = 1\<rparr>"
    by (simp add: example_state_def)
  from a h1 have "\<exists>st'. call (rateLimitedProcedure example_env (counting_limit 2)) ?p
          marking_resolver example_state = marking_resolver st'"
    by blast
  then have a2: "fst (call (rateLimitedProcedure example_env (counting_limit 2)) ?p
          marking_resolver example_state) = Inr ''Zurich''"
    by (auto simp: marking_resolver_def)
  from b h2 have b1: "fst (consult 2 (redis ?full) (identifier (ctx ?full) ?p))
       = \<lparr>success = False, remaining = 0\<rparr>"
    by blast
  from b h2 have "\<exists>st'. call (rateLimitedProcedure example_env (counting_limit 2)) ?p
          marking_resolver ?full
        = (Inl (TRPCError INTERNAL_SERVER_ERROR ''Rate limit exceeded''), st')"
    by blast
  then have b2: "fst (call (rateLimitedProcedure example_env (counting_limit 2)) ?p
          marking_resolver ?full) = Inl (TRPCError INTERNAL_SERVER_ERROR ''Rate limit exceeded'')"
    by auto
  from h1 a1' a2 h2 b1 b2 show ?thesis by blast
qed

lemma digit_facts:
  assumes "is_digit c"
  shows "\<not> is_space c" and "c \<noteq> CHR ''-''" and "c \<noteq> CHR ''+''"
    and "c \<noteq> CHR ''x''" and "c \<noteq> CHR ''X''" and "digit_value 10 c \<noteq> None"
    and "c \<noteq> CHR ''0'' \<Longrightarrow> 0 < the (digit_value 10 c)"
  using assms by (auto simp: is_digit_def is_space_def digit_value_def)

lemma radix_value_positive_from:
  "list_all is_digit s \<Longrightarrow> 0 < a \<or> list_ex (\<lambda>c. c \<noteq> CHR ''0'') s \<Longrightarrow>
   0 < foldl (\<lambda>a c. a * 10 + the (digit_value 10 c)) a s"
proof (induction s arbitrary: a)
  case Nil
  then show ?case by simp
next
  case (Cons c s)
  have "0 < a * 10 + the (digit_value 10 c) \<or> list_ex (\<lambda>c. c \<noteq> CHR ''0'') s"
    using Cons.prems digit_facts(7) [of c] by auto
  with Cons.IH [of "a * 10 + the (digit_value 10 c)"] Cons.prems(1) show ?case
    by simp
qed

lemma radix_value_positive:
  "list_all is_digit s \<Longrightarrow> list_ex (\<lambda>c. c \<noteq> CHR ''0'') s \<Longrightarrow> 0 < radix_value 10 s"
  unfolding radix_value_def by (rule radix_value_positive_from) simp_all

lemma parseInt_digits:
  assumes "s \<noteq> []" and "list_all is_digit s"
  shows "parseInt s = Some (int (radix_value 10 s))"
proof -
  from assms obtain c cs where s: "s = c # cs" and c: "is_digit c" and cs: "list_all is_digit cs"
    by (cases s) auto
  have drop: "dropWhile is_space s = s"
    using s digit_facts(1) [OF c] by simp
  have sign: "take 1 s \<noteq> ''-''" "take 1 s \<noteq> ''+''"
    using s digit_facts(2,3) [OF c] by simp_all
  have hex: "take 2 s \<noteq> ''0x''" "take 2 s \<noteq> ''0X''"
  proof -
    show "take 2 s \<noteq> ''0x''"
    proof (cases cs)
      case Nil
      with s show ?thesis by simp
    next
      case (Cons d ds)
      with cs have "is_digit d" by simp
      from digit_facts(4) [OF this] s Cons show ?thesis by simp
    qed
    show "take 2 s \<noteq> ''0X''"
    proof (cases cs)
      case Nil
      with s show ?thesis by simp
    next
      case (Cons d ds)
      with cs have "is_digit d" by simp
      from digit_facts(5) [OF this] s Cons show ?thesis by simp
    qed
  qed
  have all: "takeWhile (\<lambda>c. digit_value 10 c \<noteq> None) s = s"
    using assms(2) digit_facts(6) by (simp add: takeWhile_eq_all_conv list_all_iff)
  have "parseInt s = (if s = [] then None else Some (1 * int (radix_value 10 s)))"
    by (simp only: parseInt_def Let_def drop sign hex all if_False simp_thms)
  with assms(1) show ?thesis by simp
qed

text \<open>
  Claim C8. With the start-up validation of the specification, a process starts only when
  the configured token budget is a positive integer, and the budget the module then hands
  to the limiter is that positive integer; every other value is rejected at start.
\<close>

theorem token_budget_validated:
  "(\<not> valid_token_budget (env_UPSTASH_RATELIMITER_TOKENS_PER_TIME e) \<longrightarrow>
      process_start e = Inl InvalidEnvironment) \<and>
   (process_start e = Inr args \<longrightarrow>
      args = ratelimit_args e \<and> (\<exists>n. tokens args = Some n \<and> 0 < n))"
proof (intro conjI impI)
  assume "\<not> valid_token_budget (env_UPSTASH_RATELIMITER_TOKENS_PER_TIME e)"
  then show "process_start e = Inl InvalidEnvironment"
    by (simp add: process_start_def)
next
  assume a: "process_start e = Inr args"
  then show "args = ratelimit_args e"
    by (simp add: process_start_def split: if_splits)
next
  assume a: "process_start e = Inr args"
  let ?s = "env_UPSTASH_RATELIMITER_TOKENS_PER_TIME e"
  from a have v: "valid_token_budget ?s" and r: "args = ratelimit_args e"
    by (simp_all add: process_start_def split: if_splits)
  from v have "parseInt ?s = Some (int (radix_value 10 ?s))" and "0 < radix_value 10 ?s"
    by (simp_all add: valid_token_budget_def parseInt_digits radix_value_positive)
  with r show "\<exists>n. tokens args = Some n \<and> 0 < n"
    by (simp add: ratelimit_args_def)
qed

theorem token_budget_validated_witness:
  "\<not> valid_token_budget (env_UPSTASH_RATELIMITER_TOKENS_PER_TIME
       \<lparr>env_UPSTASH_RATELIMITER_TOKENS_PER_TIME = ''ten'',
        env_UPSTASH_RATELIMITER_TIME_INTERVAL = ''10s''\<rparr>) \<and>
   process_start \<lparr>env_UPSTASH_RATELIMITER_TOKENS_PER_TIME = ''ten'',
        env_UPSTASH_RATELIMITER_TIME_INTERVAL = ''10s''\<rparr> = Inl InvalidEnvironment \<and>
   process_start example_env = Inr \<lparr>tokens = Some 2, window = ''10s''\<rparr> \<and>
   (\<exists>n. tokens \<lparr>tokens = Some 2, window = ''10s''\<rparr> = Some n \<and> 0 < n)"
proof -
  let ?bad = "\<lparr>env_UPSTASH_RATELIMITER_TOKENS_PER_TIME = ''ten'',
        env_UPSTASH_RATELIMITER_TIME_INTERVAL = ''10s''\<rparr>"
  have h1: "\<not> valid_token_budget (env_UPSTASH_RATELIMITER_TOKENS_PER_TIME ?bad)"
    by (simp add: valid_token_budget_def is_digit_def)
  have h2: "process_start example_env = Inr \<lparr>tokens = Some 2, window = ''10s''\<rparr>"
    by code_simp
  from h1 token_budget_validated [where e = ?bad]
  have b: "process_start ?bad = Inl InvalidEnvironment"
    by blast
  from h2 token_budget_validated
      [where e = example_env and args = "\<lparr>tokens = Some 2, window = ''10s''\<rparr>"]
  have g: "\<exists>n. tokens \<lparr>tokens = Some 2, window = ''10s''\<rparr> = Some n \<and> 0 < n"
    by blast
  from h1 b h2 g show ?thesis by blast
qed

end
